theory Spec2Isabelle
  imports Main "HOL-Library.Finite_Map"
begin

section \<open>The analysis driver (package driver, Go)\<close>

subsection \<open>Errors\<close>

text \<open>
  A Go \<^verbatim>\<open>error\<close> is an interface value and the driver compares errors by identity
  with two package-level sentinels: \<^verbatim>\<open>ErrRetry\<close> (declared in this package with
  \<^verbatim>\<open>errors.New("retry analysis")\<close>) and \<^verbatim>\<open>io.EOF\<close>. Every other error value is
  modelled by its message; an error freshly built by \<^verbatim>\<open>errors.New\<close> or
  \<^verbatim>\<open>fmt.Errorf\<close> is a \<open>New\<close> value and so differs from both sentinels, also when its
  message equals theirs. A \<^verbatim>\<open>nil\<close> error is \<open>None\<close>.
\<close>

datatype error = ErrRetry | EOF | New string

text \<open>The method \<^verbatim>\<open>err.Error()\<close>, which \<^verbatim>\<open>%v\<close> prints.\<close>

fun Error :: "error \<Rightarrow> string" where
  "Error ErrRetry = ''retry analysis''"
| "Error EOF = ''EOF''"
| "Error (New msg) = msg"

subsection \<open>Data\<close>

text \<open>
  The compilation unit (\<^verbatim>\<open>*apb.CompilationUnit\<close>) and the analysis output
  (\<^verbatim>\<open>*apb.AnalysisOutput\<close>) are protocol buffers the driver only passes on: they are
  the type parameters \<open>'u\<close> and \<open>'o\<close>.
\<close>

record 'u Compilation =
  Unit :: 'u
  Revision :: string

record 'u AnalysisRequest =
  req_Compilation :: 'u
  req_FileDataService :: string
  req_Revision :: string

text \<open>
  Everything the hooks, the analyzer and the queue can read or change (and the context
  they are handed) is the world \<open>'w\<close>; a call takes the world and returns its result
  with the new world. A hook is taken to return: one that panics or blocks forever is
  outside the model.
\<close>

type_synonym ('u, 'w) CompilationFunc = "'u Compilation \<Rightarrow> 'w \<Rightarrow> error option \<times> 'w"

type_synonym ('o, 'w) OutputFunc = "'o \<Rightarrow> 'w \<Rightarrow> error option \<times> 'w"

type_synonym ('u, 'o, 'w) CompilationAnalyzer =
  "'u AnalysisRequest \<Rightarrow> ('o, 'w) OutputFunc option \<Rightarrow> 'w \<Rightarrow> error option \<times> 'w"

type_synonym ('u, 'w) AnalysisErrorFunc =
  "'u Compilation \<Rightarrow> error \<Rightarrow> 'w \<Rightarrow> error option \<times> 'w"

text \<open>The struct \<^verbatim>\<open>Driver\<close>; an unset (\<^verbatim>\<open>nil\<close>) field is \<open>None\<close>.\<close>

record ('u, 'o, 'w) Driver =
  Analyzer :: "('u, 'o, 'w) CompilationAnalyzer option"
  FileDataService :: string
  Setup :: "('u, 'w) CompilationFunc option"
  Output :: "('o, 'w) OutputFunc option"
  Teardown :: "('u, 'w) CompilationFunc option"
  AnalysisError :: "('u, 'w) AnalysisErrorFunc option"

text \<open>
  The interface \<^verbatim>\<open>Queue\<close> has no implementation in this package. By its contract a call
  of \<^verbatim>\<open>Next\<close> either invokes the callback with the next compilation and propagates
  what the callback returns, or returns an error of its own without invoking it;
  \<^verbatim>\<open>io.EOF\<close> when no further values are available. A queue is therefore a step
  function on the world that says which of the two happens.
\<close>

datatype 'u fetch = Yield "'u Compilation" | Fail error

type_synonym ('u, 'w) Queue = "'w \<Rightarrow> 'u fetch \<times> 'w"

subsection \<open>Observing the calls\<close>

text \<open>
  The claims speak about which operations the driver invokes, how often and in which
  order, so the model keeps a log of the calls the driver makes, oldest first, next to
  the world. \<open>CallNext\<close> is a call of \<^verbatim>\<open>queue.Next\<close>, \<open>LogPrintf\<close> a line written
  with \<^verbatim>\<open>log.Printf\<close>.
\<close>

datatype 'u call =
    CallNext
  | CallSetup "'u Compilation"
  | CallAnalyze "'u AnalysisRequest"
  | CallAnalysisError "'u Compilation" error
  | CallTeardown "'u Compilation"
  | LogPrintf string

record ('u, 'w) state =
  world :: 'w
  trace :: "'u call list"

definition invoke :: "'u call \<Rightarrow> ('w \<Rightarrow> 'a \<times> 'w) \<Rightarrow> ('u, 'w) state \<Rightarrow> 'a \<times> ('u, 'w) state" where
  "invoke c f s = (let (r, w) = f (world s) in (r, \<lparr>world = w, trace = trace s @ [c]\<rparr>))"

text \<open>
  What a call by the driver comes to: a returned error value, or a panic (the method
  call on a \<^verbatim>\<open>nil\<close> analyzer). A loop that never ends has no outcome at all: the
  functions below return \<open>None\<close> then.
\<close>

datatype outcome = Panic | Return "error option"

subsection \<open>The driver\<close>

definition validate :: "('u, 'o, 'w) Driver \<Rightarrow> error option" where
  "validate d =
     (if Analyzer d = None then Some (New ''missing Analyzer'')
      else if Output d = None then Some (New ''missing Output function'')
      else None)"

text \<open>The request \<^verbatim>\<open>&apb.AnalysisRequest{...}\<close> that the loop builds for a compilation.\<close>

definition request :: "('u, 'o, 'w) Driver \<Rightarrow> 'u Compilation \<Rightarrow> 'u AnalysisRequest" where
  "request d cu =
     \<lparr>req_Compilation = Unit cu,
      req_FileDataService = FileDataService d,
      req_Revision = Revision cu\<rparr>"

text \<open>
  The loop \<^verbatim>\<open>for err == ErrRetry { ... }\<close> of the callback, entered with the current
  value of \<^verbatim>\<open>err\<close>.
\<close>

partial_function (option) retry_loop ::
  "('u, 'o, 'w) Driver \<Rightarrow> 'u Compilation \<Rightarrow> error option \<Rightarrow> ('u, 'w) state
     \<Rightarrow> (outcome \<times> ('u, 'w) state) option" where
  "retry_loop d cu err s =
     (if err = Some ErrRetry then
        (case Analyzer d of
           None \<Rightarrow> Some (Panic, s)
         | Some a \<Rightarrow>
             (let (err1, s1) = invoke (CallAnalyze (request d cu)) (a (request d cu) (Output d)) s;
                  (err2, s2) =
                    (case (AnalysisError d, err1) of
                       (Some hook, Some e) \<Rightarrow> invoke (CallAnalysisError cu e) (hook cu e) s1
                     | _ \<Rightarrow> (err1, s1))
              in retry_loop d cu err2 s2))
      else Some (Return err, s))"

text \<open>
  The first statement of the function literal that \<^verbatim>\<open>Run\<close> hands to
  \<^verbatim>\<open>queue.Next\<close>: the call of \<^verbatim>\<open>d.Setup\<close> when it is set, with the error it
  returns (\<open>None\<close> when the hook is unset or returns \<^verbatim>\<open>nil\<close>).
\<close>

definition run_Setup ::
  "('u, 'o, 'w) Driver \<Rightarrow> 'u Compilation \<Rightarrow> ('u, 'w) state \<Rightarrow> error option \<times> ('u, 'w) state" where
  "run_Setup d cu s =
     (case Setup d of
        None \<Rightarrow> (None, s)
      | Some setup \<Rightarrow> invoke (CallSetup cu) (setup cu) s)"

text \<open>
  The function literal itself: Setup, the retry loop, Teardown.
  \<^verbatim>\<open>fmt.Errorf("...: %v", err)\<close> builds a new error from the message of \<^verbatim>\<open>err\<close>.
\<close>

definition callback ::
  "('u, 'o, 'w) Driver \<Rightarrow> 'u Compilation \<Rightarrow> ('u, 'w) state
     \<Rightarrow> (outcome \<times> ('u, 'w) state) option" where
  "callback d cu s =
     (case run_Setup d cu s of
        (Some e, s1) \<Rightarrow>
          Some (Return (Some (New (''analysis setup error: '' @ Error e))), s1)
      | (None, s1) \<Rightarrow>
          (case retry_loop d cu (Some ErrRetry) s1 of
             None \<Rightarrow> None
           | Some (Panic, s2) \<Rightarrow> Some (Panic, s2)
           | Some (Return err, s2) \<Rightarrow>
               (case Teardown d of
                  None \<Rightarrow> Some (Return err, s2)
                | Some teardown \<Rightarrow>
                    (case invoke (CallTeardown cu) (teardown cu) s2 of
                       (None, s3) \<Rightarrow> Some (Return err, s3)
                     | (Some tErr, s3) \<Rightarrow>
                         (case err of
                            None \<Rightarrow>
                              Some (Return (Some (New (''analysis teardown error: '' @ Error tErr))), s3)
                          | Some e \<Rightarrow>
                              Some (Return err,
                                s3\<lparr>trace := trace s3 @
                                  [LogPrintf (''WARNING: analysis teardown error after analysis error: ''
                                     @ Error tErr @ '' (analysis error: '' @ Error e @ '')'')]\<rparr>))))))"

text \<open>
  A call \<^verbatim>\<open>queue.Next(ctx, f)\<close>: the queue either fails by itself or invokes \<open>f\<close> on
  the next compilation and returns what \<open>f\<close> returns.
\<close>

definition Next ::
  "('u, 'w) Queue \<Rightarrow> ('u Compilation \<Rightarrow> ('u, 'w) state \<Rightarrow> (outcome \<times> ('u, 'w) state) option)
     \<Rightarrow> ('u, 'w) state \<Rightarrow> (outcome \<times> ('u, 'w) state) option" where
  "Next queue f s =
     (case invoke CallNext queue s of
        (Fail e, s1) \<Rightarrow> Some (Return (Some e), s1)
      | (Yield cu, s1) \<Rightarrow> f cu s1)"

text \<open>The outer \<^verbatim>\<open>for { ... }\<close> of \<^verbatim>\<open>Run\<close>.\<close>

partial_function (option) run_loop ::
  "('u, 'o, 'w) Driver \<Rightarrow> ('u, 'w) Queue \<Rightarrow> ('u, 'w) state
     \<Rightarrow> (outcome \<times> ('u, 'w) state) option" where
  "run_loop d queue s =
     (case Next queue (callback d) s of
        None \<Rightarrow> None
      | Some (Panic, s1) \<Rightarrow> Some (Panic, s1)
      | Some (Return err, s1) \<Rightarrow>
          if err = Some EOF then Some (Return None, s1)
          else if err \<noteq> None then Some (Return err, s1)
          else run_loop d queue s1)"

definition Run ::
  "('u, 'o, 'w) Driver \<Rightarrow> ('u, 'w) Queue \<Rightarrow> ('u, 'w) state
     \<Rightarrow> (outcome \<times> ('u, 'w) state) option" where
  "Run d queue s =
     (case validate d of
        Some err \<Rightarrow> Some (Return (Some err), s)
      | None \<Rightarrow> run_loop d queue s)"

section \<open>Artifact selectors (\<^verbatim>\<open>bazel_artifact_selector.h\<close>, C++)\<close>

subsection \<open>Status values and the state blob\<close>

text \<open>The codes of \<^verbatim>\<open>absl::Status\<close> that the selectors use.\<close>

datatype StatusCode = kOk | kInvalidArgument | kNotFound | kFailedPrecondition | kUnimplemented

record Status =
  code :: StatusCode
  message :: string

definition OkStatus :: Status where
  "OkStatus = \<lparr>code = kOk, message = []\<rparr>"

definition UnimplementedError :: "string \<Rightarrow> Status" where
  "UnimplementedError msg = \<lparr>code = kUnimplemented, message = msg\<rparr>"

definition InvalidArgumentError :: "string \<Rightarrow> Status" where
  "InvalidArgumentError msg = \<lparr>code = kInvalidArgument, message = msg\<rparr>"

definition FailedPreconditionError :: "string \<Rightarrow> Status" where
  "FailedPreconditionError msg = \<lparr>code = kFailedPrecondition, message = msg\<rparr>"

subsection \<open>Build events and artifacts\<close>

text \<open>
  Modelled from the spec: a file of a build event or of an artifact
  (\<^verbatim>\<open>build_event_stream.proto\<close> and \<^verbatim>\<open>bazel_artifact.h\<close> are not among the
  sources): a name, a locator and an optional symlink target.
\<close>

record File =
  name :: string
  locator :: string
  symlink_target :: "string option"

text \<open>
  Modelled from the spec: the message \<^verbatim>\<open>NamedSetOfFiles\<close> of the missing
  \<^verbatim>\<open>build_event_stream.proto\<close>: an ordered list of files and, as the spec's file
  assembly needs, the ids of the child file sets it refers to.
\<close>

record NamedSetOfFiles =
  files :: "File list"
  file_sets :: "string list"

text \<open>
  Modelled from the spec: the struct \<^verbatim>\<open>BazelArtifact\<close> of the missing
  \<^verbatim>\<open>bazel_artifact.h\<close>: an id (the label of the target the artifact is selected
  for) and an ordered list of files.
\<close>

record BazelArtifact =
  artifact_id :: string
  artifact_files :: "File list"

text \<open>
  Modelled from the spec: the sum type of build events. The arguments are, in order,
  \<open>NamedSetOfFilesEvent id fileset\<close>,
  \<open>TargetCompleted label aspect success output_groups\<close> (each output group a name
  with the file set ids it lists), and
  \<open>ActionCompleted action_type success primary_output label\<close>.
\<close>

datatype BuildEvent =
    NamedSetOfFilesEvent string NamedSetOfFiles
  | TargetCompleted string string bool "(string \<times> string list) list"
  | ActionCompleted string bool File string
  | Other

subsection \<open>The aspect selector\<close>

text \<open>
  The struct \<^verbatim>\<open>AspectArtifactSelectorOptions\<close>. A \<^verbatim>\<open>RegexSet\<close> (regex.h is not among
  the sources) is used only to decide whether a name matches, so it is the predicate
  that says which names do.
\<close>

record AspectArtifactSelectorOptions =
  file_name_allowlist :: "string \<Rightarrow> bool"
  output_group_allowlist :: "string \<Rightarrow> bool"
  target_aspect_allowlist :: "string \<Rightarrow> bool"

text \<open>
  The private struct \<^verbatim>\<open>State\<close> of the header: a hash set and two hash maps, all
  finite.
\<close>

record State =
  disposed :: "string fset"
  filesets :: "(string, NamedSetOfFiles) fmap"
  pending :: "(string, string) fmap"

record AspectArtifactSelector =
  sel_options :: AspectArtifactSelectorOptions
  sel_state :: State

text \<open>The constructor \<^verbatim>\<open>AspectArtifactSelector(Options options)\<close>: an empty state.\<close>

definition new_AspectArtifactSelector :: "AspectArtifactSelectorOptions \<Rightarrow> AspectArtifactSelector" where
  "new_AspectArtifactSelector options =
     \<lparr>sel_options = options, sel_state = \<lparr>disposed = {||}, filesets = fmempty, pending = fmempty\<rparr>\<rparr>"

text \<open>
  Modelled from the spec: the body of \<^verbatim>\<open>ReadFilesInto\<close> (the header only declares it;
  \<^verbatim>\<open>bazel_artifact_selector.cc\<close> is not among the sources). File assembly for the target
  \<open>target\<close>: each file set id still to be read is skipped when disposed; when it is a
  stored file set, that is removed from \<open>filesets\<close>, marked disposed, its files are
  appended and its children are read next (known children are inlined); when it has
  not been seen, it is tracked in \<open>pending\<close> for the target. The ids still to be read
  are kept as a worklist, children before the remaining siblings.
\<close>

function ReadFilesInto :: "string \<Rightarrow> string list \<Rightarrow> State \<Rightarrow> File list \<Rightarrow> State \<times> File list" where
  "ReadFilesInto target [] st acc = (st, acc)"
| "ReadFilesInto target (i # rest) st acc =
     (if i |\<in>| disposed st then ReadFilesInto target rest st acc
      else
        (case fmlookup (filesets st) i of
           Some fileset \<Rightarrow>
             ReadFilesInto target (file_sets fileset @ rest)
               (st\<lparr>filesets := fmdrop i (filesets st), disposed := finsert i (disposed st)\<rparr>)
               (acc @ files fileset)
         | None \<Rightarrow>
             ReadFilesInto target rest (st\<lparr>pending := fmupd i target (pending st)\<rparr>) acc))"
  by pat_completeness auto
termination
proof (relation "measures [\<lambda>(t, w, st, acc). fcard (fmdom (filesets st)),
                           \<lambda>(t, w, st, acc). length w]", goal_cases)
  case 1
  show ?case by simp
next
  case 2
  show ?case by simp
next
  case 3
  show ?case by simp
next
  case (4 target i rest st acc fileset)
  have "i |\<in>| fmdom (filesets st)"
    using 4(2) by (rule fmdomI)
  then have "fcard (fmdom (filesets st) |-| {|i|}) < fcard (fmdom (filesets st))"
    by (rule fcard_fminus1_less)
  then show ?case by simp
qed

text \<open>
  Modelled from the spec: the body of \<^verbatim>\<open>SelectFileSet\<close> (declared in the header,
  defined in the missing \<^verbatim>\<open>bazel_artifact_selector.cc\<close>). On a \<^verbatim>\<open>NamedSetOfFiles\<close> with
  id \<open>i\<close>: ignored when \<open>i\<close> is disposed; the files are filtered by the file name
  allowlist; when a target already claimed \<open>i\<close>, it leaves \<open>pending\<close>, is marked
  disposed and an artifact with the filtered files is returned for the claiming
  target; otherwise the filtered set is stored under \<open>filesets[i]\<close>.
\<close>

definition SelectFileSet ::
  "AspectArtifactSelectorOptions \<Rightarrow> string \<Rightarrow> NamedSetOfFiles \<Rightarrow> State
     \<Rightarrow> BazelArtifact option \<times> State" where
  "SelectFileSet options i fileset st =
     (if i |\<in>| disposed st then (None, st)
      else
        (let kept = filter (\<lambda>f. file_name_allowlist options (name f)) (files fileset) in
           case fmlookup (pending st) i of
             Some target \<Rightarrow>
               (let st1 = st\<lparr>pending := fmdrop i (pending st), disposed := finsert i (disposed st)\<rparr>;
                    (st2, fs) = ReadFilesInto target (file_sets fileset) st1 kept
                in (Some \<lparr>artifact_id = target, artifact_files = fs\<rparr>, st2))
           | None \<Rightarrow>
               (None, st\<lparr>filesets := fmupd i (fileset\<lparr>files := kept\<rparr>) (filesets st)\<rparr>)))"

text \<open>
  Modelled from the spec: what \<^verbatim>\<open>SelectTargetCompleted\<close> does for one file set id
  \<open>i\<close> that a qualifying output group of the target \<open>label\<close> refers to: skipped when
  disposed; when stored, removed from \<open>filesets\<close>, marked disposed and assembled into
  an artifact for \<open>label\<close>; when in neither, recorded as \<open>pending[i] = label\<close>.
\<close>

definition resolve :: "string \<Rightarrow> string \<Rightarrow> State \<Rightarrow> BazelArtifact option \<times> State" where
  "resolve label i st =
     (if i |\<in>| disposed st then (None, st)
      else
        (case fmlookup (filesets st) i of
           Some fileset \<Rightarrow>
             (let st1 = st\<lparr>filesets := fmdrop i (filesets st), disposed := finsert i (disposed st)\<rparr>;
                  (st2, fs) = ReadFilesInto label (file_sets fileset) st1 (files fileset)
              in (Some \<lparr>artifact_id = label, artifact_files = fs\<rparr>, st2))
         | None \<Rightarrow> (None, st\<lparr>pending := fmupd i label (pending st)\<rparr>)))"

text \<open>
  Modelled from the spec: the loop of \<^verbatim>\<open>SelectTargetCompleted\<close> over the file set
  ids (missing with \<^verbatim>\<open>bazel_artifact_selector.cc\<close>): each id is resolved in order, on
  the state the earlier ones left; the artifacts built are collected in that order.
\<close>

fun resolve_all :: "string \<Rightarrow> string list \<Rightarrow> State \<Rightarrow> BazelArtifact list \<times> State" where
  "resolve_all label [] st = ([], st)"
| "resolve_all label (i # rest) st =
     (let (a, st1) = resolve label i st;
          (as, st2) = resolve_all label rest st1
      in ((case a of None \<Rightarrow> as | Some x \<Rightarrow> x # as), st2))"

text \<open>
  Modelled from the spec: the qualifying output groups of a target, which
  \<^verbatim>\<open>SelectTargetCompleted\<close> (missing with \<^verbatim>\<open>bazel_artifact_selector.cc\<close>) reads:
  those whose name matches the output group allowlist, in the order of the event.
\<close>

definition qualifying ::
  "AspectArtifactSelectorOptions \<Rightarrow> (string \<times> string list) list \<Rightarrow> (string \<times> string list) list" where
  "qualifying options output_groups =
     filter (\<lambda>(group, ids). output_group_allowlist options group) output_groups"

text \<open>
  Modelled from the spec: the body of \<^verbatim>\<open>SelectTargetCompleted\<close> (missing with
  \<^verbatim>\<open>bazel_artifact_selector.cc\<close>). Ignored, with no state change, when the target
  failed, its aspect is not allowed or no output group name is allowed. Otherwise
  every file set id of every qualifying output group is resolved in order; the first
  artifact built is returned, the later ones are built and their ids disposed but
  are not returned.
\<close>

definition SelectTargetCompleted ::
  "AspectArtifactSelectorOptions \<Rightarrow> string \<Rightarrow> string \<Rightarrow> bool \<Rightarrow> (string \<times> string list) list
     \<Rightarrow> State \<Rightarrow> BazelArtifact option \<times> State" where
  "SelectTargetCompleted options label aspect success output_groups st =
     (if \<not> success \<or> \<not> target_aspect_allowlist options aspect
         \<or> qualifying options output_groups = []
      then (None, st)
      else
        (let (as, st1) = resolve_all label (concat (map snd (qualifying options output_groups))) st
         in ((case as of [] \<Rightarrow> None | a # _ \<Rightarrow> Some a), st1)))"

text \<open>
  Modelled from the spec: the body of \<^verbatim>\<open>AspectArtifactSelector::Select\<close> (missing with
  \<^verbatim>\<open>bazel_artifact_selector.cc\<close>): the event is matched by kind; action and other events
  select nothing and change nothing.
\<close>

definition Select :: "AspectArtifactSelector \<Rightarrow> BuildEvent \<Rightarrow> BazelArtifact option \<times> AspectArtifactSelector" where
  "Select sel event =
     (case event of
        NamedSetOfFilesEvent i fileset \<Rightarrow>
          (let (a, st) = SelectFileSet (sel_options sel) i fileset (sel_state sel)
           in (a, sel\<lparr>sel_state := st\<rparr>))
      | TargetCompleted label aspect success output_groups \<Rightarrow>
          (let (a, st) = SelectTargetCompleted (sel_options sel) label aspect success output_groups (sel_state sel)
           in (a, sel\<lparr>sel_state := st\<rparr>))
      | ActionCompleted action_type success primary_output label \<Rightarrow> (None, sel)
      | Other \<Rightarrow> (None, sel))"

text \<open>
  \<^verbatim>\<open>Select\<close> called once per event, in stream order: the outputs, and the selector
  afterwards.
\<close>

fun Select_events ::
  "AspectArtifactSelector \<Rightarrow> BuildEvent list \<Rightarrow> BazelArtifact option list \<times> AspectArtifactSelector" where
  "Select_events sel [] = ([], sel)"
| "Select_events sel (event # events) =
     (let (a, sel1) = Select sel event;
          (as, sel2) = Select_events sel1 events
      in (a # as, sel2))"

subsection \<open>Serialized state\<close>

text \<open>
  Modelled from the spec: the wire format of the selector state (the message
  \<^verbatim>\<open>kythe.proto.BazelAspectArtifactSelectorState\<close> is not among the sources): a
  payload with exactly three fields mirroring \<open>disposed\<close>, \<open>filesets\<close> and
  \<open>pending\<close>.
\<close>

record BazelAspectArtifactSelectorState =
  proto_disposed :: "string fset"
  proto_filesets :: "(string, NamedSetOfFiles) fmap"
  proto_pending :: "(string, string) fmap"

text \<open>
  A \<^verbatim>\<open>google::protobuf::Any\<close> is a type URL and encoded bytes. Of the bytes the model
  keeps what the selector can learn from them: the state message they decode to, or
  that they do not decode as one.
\<close>

datatype wire = Encoded BazelAspectArtifactSelectorState | Undecodable

record Any =
  type_url :: string
  payload :: wire

text \<open>
  Modelled from the spec: the type URL that makes the payload of the selector state
  uniquely typed; the header names the message
  \<^verbatim>\<open>kythe.proto.BazelAspectArtifactSelectorState\<close>.
\<close>

definition state_type_url :: string where
  "state_type_url = ''type.googleapis.com/kythe.proto.BazelAspectArtifactSelectorState''"

text \<open>
  The defaults of the base class \<^verbatim>\<open>BazelArtifactSelector\<close>, as the header defines
  them. \<^verbatim>\<open>SerializeInto\<close> takes the blob by reference: the model returns the blob as
  the call leaves it.
\<close>

definition BazelArtifactSelector_SerializeInto :: "Any \<Rightarrow> bool \<times> Any" where
  "BazelArtifactSelector_SerializeInto state = (False, state)"

definition BazelArtifactSelector_DeserializeFrom :: "Any \<Rightarrow> Status" where
  "BazelArtifactSelector_DeserializeFrom state = UnimplementedError ''stateless selector''"

text \<open>
  Modelled from the spec: the body of \<^verbatim>\<open>AspectArtifactSelector::SerializeInto\<close>
  (missing with \<^verbatim>\<open>bazel_artifact_selector.cc\<close>): it encodes the three parts of the
  state into the uniquely typed payload and always succeeds, also when all three are
  empty.
\<close>

definition AspectArtifactSelector_SerializeInto :: "AspectArtifactSelector \<Rightarrow> Any \<Rightarrow> bool \<times> Any" where
  "AspectArtifactSelector_SerializeInto sel state =
     (True,
      \<lparr>type_url = state_type_url,
       payload = Encoded \<lparr>proto_disposed = disposed (sel_state sel),
                          proto_filesets = filesets (sel_state sel),
                          proto_pending = pending (sel_state sel)\<rparr>\<rparr>)"

text \<open>
  Modelled from the spec: the body of \<^verbatim>\<open>AspectArtifactSelector::DeserializeFrom\<close>
  (missing with \<^verbatim>\<open>bazel_artifact_selector.cc\<close>): it checks the type of the payload
  first and then replaces the whole state, or leaves it untouched: failed-precondition
  for a payload of another type, invalid for a payload of the right type that cannot
  be decoded.
\<close>

definition AspectArtifactSelector_DeserializeFrom ::
  "AspectArtifactSelector \<Rightarrow> Any \<Rightarrow> Status \<times> AspectArtifactSelector" where
  "AspectArtifactSelector_DeserializeFrom sel state =
     (if type_url state = state_type_url then
        (case payload state of
           Encoded raw \<Rightarrow>
             (OkStatus,
              sel\<lparr>sel_state := \<lparr>disposed = proto_disposed raw,
                                filesets = proto_filesets raw,
                                pending = proto_pending raw\<rparr>\<rparr>)
         | Undecodable \<Rightarrow>
             (InvalidArgumentError ''BazelAspectArtifactSelectorState cannot be decoded'', sel))
      else (FailedPreconditionError ''State not of type BazelAspectArtifactSelectorState'', sel))"

subsection \<open>The selector classes\<close>

text \<open>
  The class \<^verbatim>\<open>ExtraActionSelector\<close> has one member, the predicate on action types.
  It overrides \<^verbatim>\<open>Select\<close> only.
\<close>

record ExtraActionSelector =
  action_matches :: "string \<Rightarrow> bool"

text \<open>
  The two final subclasses of \<^verbatim>\<open>BazelArtifactSelector\<close>, and the virtual calls
  \<^verbatim>\<open>SerializeInto\<close> and \<^verbatim>\<open>DeserializeFrom\<close> on a selector: the aspect selector
  overrides both, the extra action selector inherits the defaults of the base class.
\<close>

datatype BazelArtifactSelector =
    Aspect AspectArtifactSelector
  | ExtraAction ExtraActionSelector

definition SerializeInto :: "BazelArtifactSelector \<Rightarrow> Any \<Rightarrow> bool \<times> Any" where
  "SerializeInto sel state =
     (case sel of
        Aspect a \<Rightarrow> AspectArtifactSelector_SerializeInto a state
      | ExtraAction e \<Rightarrow> BazelArtifactSelector_SerializeInto state)"

definition DeserializeFrom :: "BazelArtifactSelector \<Rightarrow> Any \<Rightarrow> Status \<times> BazelArtifactSelector" where
  "DeserializeFrom sel state =
     (case sel of
        Aspect a \<Rightarrow>
          (let (status, a1) = AspectArtifactSelector_DeserializeFrom a state
           in (status, Aspect a1))
      | ExtraAction e \<Rightarrow> (BazelArtifactSelector_DeserializeFrom state, ExtraAction e))"

section \<open>Notions used to state the properties\<close>

text \<open>
  The analyzer call \<open>f\<close> returns the retry sentinel on each of the next \<open>k\<close> calls
  made from the world \<open>w\<close>: \<open>retries f k w\<close> is the world after those calls, and
  \<open>None\<close> when one of them returns anything else.
\<close>

fun retries :: "('w \<Rightarrow> error option \<times> 'w) \<Rightarrow> nat \<Rightarrow> 'w \<Rightarrow> 'w option" where
  "retries f 0 w = Some w"
| "retries f (Suc k) w =
     (case f w of (Some ErrRetry, w') \<Rightarrow> retries f k w' | _ \<Rightarrow> None)"

text \<open>How often a log of calls invokes the analyzer, and the Teardown hook.\<close>

fun is_CallAnalyze :: "'u call \<Rightarrow> bool" where
  "is_CallAnalyze (CallAnalyze req) = True"
| "is_CallAnalyze c = False"

fun is_CallTeardown :: "'u call \<Rightarrow> bool" where
  "is_CallTeardown (CallTeardown cu) = True"
| "is_CallTeardown c = False"

definition analyzer_calls :: "'u call list \<Rightarrow> nat" where
  "analyzer_calls t = length (filter is_CallAnalyze t)"

definition teardown_calls :: "'u call list \<Rightarrow> nat" where
  "teardown_calls t = length (filter is_CallTeardown t)"

section \<open>Concrete drivers, queues and events\<close>

text \<open>
  Hooks, analyzers and queues over a world that is a counter of analyzer calls, with
  compilation units that are strings; the theorems below are instantiated with them.
\<close>

definition nil_hook :: "(string, nat) CompilationFunc" where
  "nil_hook cu w = (None, w)"

definition failing_hook :: "error \<Rightarrow> (string, nat) CompilationFunc" where
  "failing_hook e cu w = (Some e, w)"

definition nil_output :: "(unit, nat) OutputFunc" where
  "nil_output out w = (None, w)"

text \<open>An analyzer that asks for a retry on its first \<open>k\<close> calls and returns \<open>r\<close> then.\<close>

definition retrying_analyzer :: "nat \<Rightarrow> error option \<Rightarrow> (string, unit, nat) CompilationAnalyzer" where
  "retrying_analyzer k r req out w = (if w < k then (Some ErrRetry, Suc w) else (r, Suc w))"

definition always_retry :: "(string, unit, nat) CompilationAnalyzer" where
  "always_retry req out w = (Some ErrRetry, Suc w)"

text \<open>An error hook that suppresses every error.\<close>

definition suppress :: "(string, nat) AnalysisErrorFunc" where
  "suppress cu e w = (None, w)"

definition one_item :: "string Compilation \<Rightarrow> (string, nat) Queue" where
  "one_item cu w = (Yield cu, w)"

text \<open>A queue that yields \<open>cu\<close> while nothing has been analyzed and is exhausted then.\<close>

definition once :: "string Compilation \<Rightarrow> (string, nat) Queue" where
  "once cu w = (if w = 0 then (Yield cu, w) else (Fail EOF, w))"

definition exhausted :: "error \<Rightarrow> (string, nat) Queue" where
  "exhausted e w = (Fail e, w)"

definition cu0 :: "string Compilation" where
  "cu0 = \<lparr>Unit = ''unit'', Revision = ''rev''\<rparr>"

definition s0 :: "(string, nat) state" where
  "s0 = \<lparr>world = 0, trace = []\<rparr>"

definition driver0 :: "(string, unit, nat) Driver" where
  "driver0 =
     \<lparr>Analyzer = Some (retrying_analyzer 2 None), FileDataService = ''fds'',
      Setup = None, Output = Some nil_output,
      Teardown = Some nil_hook, AnalysisError = None\<rparr>"

definition driver1 :: "(string, unit, nat) Driver" where
  "driver1 =
     \<lparr>Analyzer = Some (retrying_analyzer 0 None), FileDataService = ''fds'',
      Setup = Some (failing_hook (New ''boom'')), Output = Some nil_output,
      Teardown = Some nil_hook, AnalysisError = None\<rparr>"

definition driver2 :: "(string, unit, nat) Driver" where
  "driver2 =
     \<lparr>Analyzer = Some always_retry, FileDataService = ''fds'',
      Setup = None, Output = Some nil_output,
      Teardown = None, AnalysisError = Some suppress\<rparr>"

definition driver3 :: "(string, unit, nat) Driver" where
  "driver3 =
     \<lparr>Analyzer = Some (retrying_analyzer 1 (Some (New ''bad unit''))), FileDataService = ''fds'',
      Setup = None, Output = Some nil_output,
      Teardown = Some (failing_hook (New ''disk full'')), AnalysisError = None\<rparr>"

definition driver4 :: "(string, unit, nat) Driver" where
  "driver4 =
     \<lparr>Analyzer = Some (retrying_analyzer 0 None), FileDataService = ''fds'',
      Setup = None, Output = Some nil_output,
      Teardown = Some (failing_hook (New ''disk full'')), AnalysisError = None\<rparr>"

definition driver_retry :: "(string, unit, nat) Driver" where
  "driver_retry =
     \<lparr>Analyzer = Some (retrying_analyzer 0 None), FileDataService = ''fds'',
      Setup = Some (failing_hook ErrRetry), Output = Some nil_output,
      Teardown = Some nil_hook, AnalysisError = None\<rparr>"

definition driver_unset :: "(string, unit, nat) Driver" where
  "driver_unset =
     \<lparr>Analyzer = None, FileDataService = ''fds'',
      Setup = Some nil_hook, Output = None,
      Teardown = Some nil_hook, AnalysisError = None\<rparr>"

definition driver_no_output :: "(string, unit, nat) Driver" where
  "driver_no_output =
     \<lparr>Analyzer = Some always_retry, FileDataService = ''fds'',
      Setup = Some nil_hook, Output = None,
      Teardown = Some nil_hook, AnalysisError = None\<rparr>"

text \<open>
  The events of the spec's scenarios A and B: the file set \<open>fs1\<close> with the one file
  \<open>out/foo.kzip\<close>, and the target \<open>//x:y\<close> whose output group \<open>g\<close> lists \<open>fs1\<close>.
\<close>

definition kzip_name :: "string \<Rightarrow> bool" where
  "kzip_name n = (n = ''out/foo.kzip'')"

definition group_g :: "string \<Rightarrow> bool" where
  "group_g n = (n = ''g'')"

definition any_aspect :: "string \<Rightarrow> bool" where
  "any_aspect n = True"

definition options0 :: AspectArtifactSelectorOptions where
  "options0 =
     \<lparr>file_name_allowlist = kzip_name, output_group_allowlist = group_g,
      target_aspect_allowlist = any_aspect\<rparr>"

definition foo_kzip :: File where
  "foo_kzip = \<lparr>name = ''out/foo.kzip'', locator = ''file:///out/foo.kzip'', symlink_target = None\<rparr>"

definition fs1 :: NamedSetOfFiles where
  "fs1 = \<lparr>files = [foo_kzip], file_sets = []\<rparr>"

definition fileset_event :: BuildEvent where
  "fileset_event = NamedSetOfFilesEvent ''fs1'' fs1"

definition target_event :: BuildEvent where
  "target_event = TargetCompleted ''//x:y'' ''kythe'' True [(''g'', [''fs1''])]"

definition blob0 :: Any where
  "blob0 = \<lparr>type_url = [], payload = Undecodable\<rparr>"

definition extra0 :: ExtraActionSelector where
  "extra0 = \<lparr>action_matches = any_aspect\<rparr>"

section \<open>Properties of the driver\<close>

subsection \<open>Steps of the two loops\<close>

lemma retry_loop_done:
  "err \<noteq> Some ErrRetry \<Longrightarrow> retry_loop d cu err s = Some (Return err, s)"
  by (subst retry_loop.simps) simp

lemma retry_loop_no_hook:
  assumes "Analyzer d = Some a" "AnalysisError d = None"
    and "a (request d cu) (Output d) (world s) = (err1, w1)"
  shows "retry_loop d cu (Some ErrRetry) s =
           retry_loop d cu err1 \<lparr>world = w1, trace = trace s @ [CallAnalyze (request d cu)]\<rparr>"
  using assms by (subst retry_loop.simps) (simp add: invoke_def)

lemma retry_loop_retries:
  assumes "Analyzer d = Some a" "AnalysisError d = None"
  shows "retries (a (request d cu) (Output d)) K (world s) = Some wK \<Longrightarrow>
         retry_loop d cu (Some ErrRetry) s =
           retry_loop d cu (Some ErrRetry)
             \<lparr>world = wK, trace = trace s @ replicate K (CallAnalyze (request d cu))\<rparr>"
proof (induction K arbitrary: s)
  case 0
  then show ?case by (cases s) simp
next
  case (Suc K)
  obtain err1 w1 where f: "a (request d cu) (Output d) (world s) = (err1, w1)"
    by (cases "a (request d cu) (Output d) (world s)")
  with Suc.prems have e: "err1 = Some ErrRetry"
    and r: "retries (a (request d cu) (Output d)) K w1 = Some wK"
    by (auto split: option.splits error.splits)
  let ?s1 = "\<lparr>world = w1, trace = trace s @ [CallAnalyze (request d cu)]\<rparr>"
  have "retry_loop d cu (Some ErrRetry) s = retry_loop d cu (Some ErrRetry) ?s1"
    using retry_loop_no_hook[OF assms f] e by simp
  also have "\<dots> = retry_loop d cu (Some ErrRetry)
             \<lparr>world = wK, trace = trace ?s1 @ replicate K (CallAnalyze (request d cu))\<rparr>"
    using Suc.IH[of ?s1] r by simp
  finally show ?case by (simp add: replicate_app_Cons_same)
qed

lemma run_Setup_calls:
  "run_Setup d cu s = (r, s1) \<Longrightarrow>
     analyzer_calls (trace s1) = analyzer_calls (trace s) \<and>
     teardown_calls (trace s1) = teardown_calls (trace s)"
  by (auto simp: run_Setup_def invoke_def analyzer_calls_def teardown_calls_def
      split: option.splits prod.splits)

lemma callback_setup_error:
  assumes "Setup d = Some setup" "setup cu (world s) = (Some e, w1)"
  shows "callback d cu s =
           Some (Return (Some (New (''analysis setup error: '' @ Error e))),
                 \<lparr>world = w1, trace = trace s @ [CallSetup cu]\<rparr>)"
  using assms by (simp add: callback_def run_Setup_def invoke_def)

lemma Next_yield:
  "queue (world s) = (Yield cu, w1) \<Longrightarrow>
     Next queue f s = f cu \<lparr>world = w1, trace = trace s @ [CallNext]\<rparr>"
  by (simp add: Next_def invoke_def)

lemma Next_fail:
  "queue (world s) = (Fail e, w1) \<Longrightarrow>
     Next queue f s = Some (Return (Some e), \<lparr>world = w1, trace = trace s @ [CallNext]\<rparr>)"
  by (simp add: Next_def invoke_def)

lemma run_loop_EOF:
  "Next queue (callback d) s = Some (Return (Some EOF), s1) \<Longrightarrow>
     run_loop d queue s = Some (Return None, s1)"
  by (subst run_loop.simps) simp

lemma run_loop_error:
  "Next queue (callback d) s = Some (Return (Some e), s1) \<Longrightarrow> e \<noteq> EOF \<Longrightarrow>
     run_loop d queue s = Some (Return (Some e), s1)"
  by (subst run_loop.simps) simp

lemma run_loop_continue:
  "Next queue (callback d) s = Some (Return None, s1) \<Longrightarrow>
     run_loop d queue s = run_loop d queue s1"
  by (subst run_loop.simps) simp

lemma validate_None_iff:
  "validate d = None \<longleftrightarrow> Analyzer d \<noteq> None \<and> Output d \<noteq> None"
  by (simp add: validate_def)

lemma run_loop_first_fetch:
  "run_loop d queue s =
     (case queue (world s) of
        (Fail e, w1) \<Rightarrow>
          Some (Return (if e = EOF then None else Some e),
                \<lparr>world = w1, trace = trace s @ [CallNext]\<rparr>)
      | (Yield cu, w1) \<Rightarrow>
          (case callback d cu \<lparr>world = w1, trace = trace s @ [CallNext]\<rparr> of
             None \<Rightarrow> None
           | Some (Panic, s1) \<Rightarrow> Some (Panic, s1)
           | Some (Return err, s1) \<Rightarrow>
               if err = Some EOF then Some (Return None, s1)
               else if err \<noteq> None then Some (Return err, s1)
               else run_loop d queue s1))"
proof (cases "queue (world s)")
  case (Pair f w1)
  show ?thesis
  proof (cases f)
    case (Yield cu)
    with Pair show ?thesis
      by (subst run_loop.simps) (simp add: Next_yield)
  next
    case (Fail e)
    with Pair show ?thesis
      by (subst run_loop.simps) (simp add: Next_fail)
  qed
qed

subsection \<open>No panic after validation\<close>

text \<open>
  The only panic of the model is the method call on an unset analyzer. \<^verbatim>\<open>Run\<close>
  validates the driver first, so whenever it returns, it returns an error value.
\<close>

lemma retry_loop_no_panic:
  assumes "retry_loop d cu err s = Some y"
  shows "Analyzer d \<noteq> None \<longrightarrow> fst y \<noteq> Panic"
  using assms
proof (induction rule: retry_loop.raw_induct)
  case (1 f d cu err s y)
  show ?case
  proof
    assume a: "Analyzer d \<noteq> None"
    show "fst y \<noteq> Panic"
    proof (cases "err = Some ErrRetry")
      case False
      with 1(2) show ?thesis by auto
    next
      case True
      from a obtain an where an: "Analyzer d = Some an" by auto
      obtain err1 s1 where i1:
        "invoke (CallAnalyze (request d cu)) (an (request d cu) (Output d)) s = (err1, s1)"
        by fastforce
      obtain err2 s2 where i2:
        "(case (AnalysisError d, err1) of
            (Some hook, Some e) \<Rightarrow> invoke (CallAnalysisError cu e) (hook cu e) s1
          | _ \<Rightarrow> (err1, s1)) = (err2, s2)"
        by fastforce
      have "f d cu err2 s2 = Some y"
        using 1(2) True an i1 i2 by simp
      moreover have "retry_loop d cu err2 s2 = Some y"
        using 1(3) True an i1 i2 by (subst (asm) retry_loop.simps) simp
      ultimately show ?thesis
        using 1(1) a by blast
    qed
  qed
qed (rule assms)

lemma callback_no_panic:
  assumes "Analyzer d \<noteq> None" "callback d cu s = Some (r, s')"
  shows "r \<noteq> Panic"
  using assms retry_loop_no_panic [of d cu "Some ErrRetry"]
  by (fastforce simp: callback_def split: prod.splits option.splits outcome.splits)

lemma Next_no_panic:
  assumes "Analyzer d \<noteq> None" "Next queue (callback d) s = Some (r, s1)"
  shows "r \<noteq> Panic"
proof (cases "queue (world s)")
  case (Pair f w)
  show ?thesis
  proof (cases f)
    case (Yield cu)
    with Pair assms(2) have "callback d cu \<lparr>world = w, trace = trace s @ [CallNext]\<rparr> = Some (r, s1)"
      by (simp add: Next_def invoke_def)
    with assms(1) show ?thesis by (rule callback_no_panic)
  next
    case (Fail e)
    with Pair assms(2) show ?thesis
      by (auto simp: Next_def invoke_def)
  qed
qed

lemma run_loop_no_panic:
  assumes "run_loop d queue s = Some y"
  shows "Analyzer d \<noteq> None \<longrightarrow> fst y \<noteq> Panic"
  using assms
proof (induction rule: run_loop.raw_induct)
  case (1 f d queue s y)
  show ?case
  proof
    assume a: "Analyzer d \<noteq> None"
    obtain r s1 where n: "Next queue (callback d) s = Some (r, s1)"
      using 1(2) by (auto split: option.splits)
    have "r \<noteq> Panic"
      using a n by (rule Next_no_panic)
    then obtain err where r: "r = Return err" by (cases r) auto
    show "fst y \<noteq> Panic"
    proof (cases "err = None")
      case False
      with 1(2) n r show ?thesis by (auto split: if_splits)
    next
      case True
      have "f d queue s1 = Some y"
        using 1(2) n r True by simp
      moreover have "run_loop d queue s1 = Some y"
        using 1(3) n r True by (subst (asm) run_loop.simps) simp
      ultimately show ?thesis
        using 1(1) a by blast
    qed
  qed
qed (rule assms)

lemma Run_no_panic:
  assumes "Run d queue s = Some (r, s')"
  shows "r \<noteq> Panic"
proof (cases "validate d")
  case None
  then have "Analyzer d \<noteq> None" by (simp add: validate_None_iff)
  moreover have "run_loop d queue s = Some (r, s')"
    using assms None by (simp add: Run_def)
  ultimately show ?thesis
    using run_loop_no_panic by fastforce
next
  case (Some e)
  with assms show ?thesis by (auto simp: Run_def)
qed

subsection \<open>Calls of the output function\<close>

text \<open>
  The analyzer is the only caller of \<^verbatim>\<open>Output\<close>: the driver hands the function to
  \<^verbatim>\<open>Analyze\<close> and never calls it. A log without \<open>CallAnalyze\<close> is therefore a
  run without any output.
\<close>

subsection \<open>A failing Setup hook\<close>

text \<open>
  Claim C1, as the spec states it, has Teardown run after a failed Setup. It does not:
  with a Teardown hook configured and a Setup hook that fails, the call of
  \<^verbatim>\<open>queue.Next\<close> returns the wrapped setup error after the calls of \<^verbatim>\<open>Next\<close> and
  \<^verbatim>\<open>Setup\<close> only; Teardown is not among the calls made.
\<close>

theorem setup_error_skips_teardown:
  "Teardown driver1 = Some nil_hook \<and>
   Next (one_item cu0) (callback driver1) s0 =
     Some (Return (Some (New ''analysis setup error: boom'')),
           \<lparr>world = 0, trace = [CallNext, CallSetup cu0]\<rparr>) \<and>
   CallTeardown cu0 \<notin> set [CallNext, CallSetup cu0]"
  by (simp add: Next_def callback_def run_Setup_def invoke_def driver1_def one_item_def
        failing_hook_def s0_def)

text \<open>
  Claim C1, amended: for every compilation the queue hands to the callback, when the
  configured Setup hook returns a non-nil error, that failure, wrapped as a setup
  error, is the result that \<^verbatim>\<open>Next\<close> returns for the item, and the item is abandoned
  at once: after the call of \<^verbatim>\<open>Next\<close> the only call made is that of Setup, so
  neither the analyzer nor the Teardown hook is invoked for the item.
\<close>

theorem setup_error_abandons_item:
  assumes "queue (world s) = (Yield cu, w1)"
    and "Setup d = Some setup" and "setup cu w1 = (Some e, w2)"
  shows "Next queue (callback d) s =
           Some (Return (Some (New (''analysis setup error: '' @ Error e))),
                 \<lparr>world = w2, trace = trace s @ [CallNext, CallSetup cu]\<rparr>)"
  using assms by (simp add: Next_yield callback_setup_error)

text \<open>Claim C1, amended, at the driver with the failing Setup hook.\<close>

theorem setup_error_abandons_item_witness:
  "Next (one_item cu0) (callback driver1) s0 =
     Some (Return (Some (New ''analysis setup error: boom'')),
           \<lparr>world = 0, trace = [CallNext, CallSetup cu0]\<rparr>)"
  using setup_error_abandons_item
    [of "one_item cu0" s0 cu0 0 driver1 "failing_hook (New ''boom'')" "New ''boom''" 0]
  by (simp add: one_item_def s0_def driver1_def failing_hook_def)

text \<open>
  Claim C10: when the configured Setup hook returns a non-nil error \<open>e\<close> for a
  compilation, \<^verbatim>\<open>Run\<close> returns, from whichever iteration of its loop pulled the
  compilation, a newly built error whose message is the setup prefix followed by the
  message of \<open>e\<close>; that error is never \<open>e\<close> itself. Nothing is retried: the calls
  of the iteration are those of \<^verbatim>\<open>Next\<close> and Setup, once each. This holds for every
  \<open>e\<close>, the retry sentinel included.
\<close>

theorem setup_error_wraps_message:
  assumes "queue (world s) = (Yield cu, w1)"
    and "Setup d = Some setup" and "setup cu w1 = (Some e, w2)"
  shows "run_loop d queue s =
           Some (Return (Some (New (''analysis setup error: '' @ Error e))),
                 \<lparr>world = w2, trace = trace s @ [CallNext, CallSetup cu]\<rparr>)
         \<and> New (''analysis setup error: '' @ Error e) \<noteq> e"
proof -
  have "Next queue (callback d) s =
           Some (Return (Some (New (''analysis setup error: '' @ Error e))),
                 \<lparr>world = w2, trace = trace s @ [CallNext, CallSetup cu]\<rparr>)"
    using assms by (simp add: Next_yield callback_setup_error)
  then have "run_loop d queue s =
           Some (Return (Some (New (''analysis setup error: '' @ Error e))),
                 \<lparr>world = w2, trace = trace s @ [CallNext, CallSetup cu]\<rparr>)"
    by (rule run_loop_error) simp
  moreover have "New (''analysis setup error: '' @ Error e) \<noteq> e"
    by (cases e) simp_all
  ultimately show ?thesis by simp
qed

text \<open>Claim C10 at a Setup hook that returns the retry sentinel.\<close>

theorem setup_error_wraps_message_witness:
  "run_loop driver_retry (one_item cu0) s0 =
     Some (Return (Some (New ''analysis setup error: retry analysis'')),
           \<lparr>world = 0, trace = [CallNext, CallSetup cu0]\<rparr>)
   \<and> New ''analysis setup error: retry analysis'' \<noteq> ErrRetry"
  using setup_error_wraps_message
    [of "one_item cu0" s0 cu0 0 driver_retry "failing_hook ErrRetry" ErrRetry 0]
  by (simp add: one_item_def s0_def driver_retry_def failing_hook_def)

subsection \<open>The retry loop\<close>

text \<open>
  Claim C2, as stated, has the analyzer re-invoked whenever it returns the retry
  sentinel and the error hook applied to other errors only. With an error hook that
  suppresses every error, an analyzer result of \<^verbatim>\<open>ErrRetry\<close> is handed to the hook
  and the loop ends with \<^verbatim>\<open>nil\<close> after a single call of the analyzer.
\<close>

theorem retry_result_goes_to_hook:
  "always_retry (request driver2 cu0) (Output driver2) (world s0) = (Some ErrRetry, 1) \<and>
   retry_loop driver2 cu0 (Some ErrRetry) s0 =
     Some (Return None,
           \<lparr>world = 1, trace = [CallAnalyze (request driver2 cu0), CallAnalysisError cu0 ErrRetry]\<rparr>)"
  by (simp add: retry_loop.simps invoke_def driver2_def always_retry_def suppress_def s0_def)

text \<open>
  Claim C2, amended: one pass of the retry loop invokes the analyzer on the
  compilation; when an AnalysisError hook is configured and the analyzer's result is
  any non-nil error, the retry sentinel included, the hook is applied to it and its
  return value replaces the result; otherwise the result stands. The analyzer is
  invoked again on the same compilation exactly when the result, after that
  replacement, is the retry sentinel; any other result ends the loop.
\<close>

theorem retry_loop_pass:
  assumes "Analyzer d = Some a"
    and "a (request d cu) (Output d) (world s) = (err1, w1)"
  shows "retry_loop d cu (Some ErrRetry) s =
           (let s1 = \<lparr>world = w1, trace = trace s @ [CallAnalyze (request d cu)]\<rparr> in
            case (AnalysisError d, err1) of
              (Some hook, Some e) \<Rightarrow>
                (let (err2, w2) = hook cu e w1;
                     s2 = \<lparr>world = w2, trace = trace s1 @ [CallAnalysisError cu e]\<rparr>
                 in if err2 = Some ErrRetry then retry_loop d cu (Some ErrRetry) s2
                    else Some (Return err2, s2))
            | _ \<Rightarrow>
                if err1 = Some ErrRetry then retry_loop d cu (Some ErrRetry) s1
                else Some (Return err1, s1))"
proof -
  let ?s1 = "\<lparr>world = w1, trace = trace s @ [CallAnalyze (request d cu)]\<rparr>"
  show ?thesis
  proof (cases "AnalysisError d")
    case None
    then have "retry_loop d cu (Some ErrRetry) s = retry_loop d cu err1 ?s1"
      using assms by (intro retry_loop_no_hook)
    then show ?thesis
      using None by (cases "err1 = Some ErrRetry") (simp_all add: Let_def retry_loop_done)
  next
    case (Some hook)
    show ?thesis
    proof (cases err1)
      case None
      have "retry_loop d cu (Some ErrRetry) s = retry_loop d cu None ?s1"
        using assms Some None by (subst retry_loop.simps) (simp add: invoke_def)
      then show ?thesis
        using Some None by (simp add: Let_def retry_loop_done)
    next
      case (Some e)
      obtain err2 w2 where h: "hook cu e w1 = (err2, w2)"
        by (cases "hook cu e w1")
      have "retry_loop d cu (Some ErrRetry) s =
              retry_loop d cu err2
                \<lparr>world = w2, trace = trace s @ [CallAnalyze (request d cu), CallAnalysisError cu e]\<rparr>"
        using assms \<open>AnalysisError d = Some hook\<close> Some h
        by (subst retry_loop.simps) (simp add: invoke_def)
      then show ?thesis
        using \<open>AnalysisError d = Some hook\<close> Some h
        by (cases "err2 = Some ErrRetry") (simp_all add: Let_def retry_loop_done)
    qed
  qed
qed

text \<open>Claim C2, amended, at the analyzer that always asks for a retry.\<close>

theorem retry_loop_pass_witness:
  "retry_loop driver2 cu0 (Some ErrRetry) s0 =
     Some (Return None,
           \<lparr>world = 1, trace = [CallAnalyze (request driver2 cu0), CallAnalysisError cu0 ErrRetry]\<rparr>)"
  using retry_loop_pass [of driver2 always_retry cu0 s0 "Some ErrRetry" 1]
  by (simp add: driver2_def always_retry_def suppress_def s0_def Let_def)

subsection \<open>Teardown after the loop\<close>

text \<open>
  Claim C3: for every compilation whose Setup did not fail and whose retry loop ended
  with the result \<open>err\<close> (the analyzer's, or what the AnalysisError hook put in its
  place), when the configured Teardown hook fails with \<open>tErr\<close>: if \<open>err\<close> is an
  error, the item's result is that analysis error and the Teardown failure is only
  written to the log as a warning; if \<open>err\<close> is \<^verbatim>\<open>nil\<close>, the item's result is the
  Teardown failure wrapped as a teardown error.
\<close>

theorem error_precedence:
  assumes "run_Setup d cu s = (None, s1)"
    and "retry_loop d cu (Some ErrRetry) s1 = Some (Return err, s2)"
    and "Teardown d = Some teardown" and "teardown cu (world s2) = (Some tErr, w3)"
  shows "callback d cu s =
           Some (case err of
                   Some e \<Rightarrow>
                     (Return (Some e),
                      \<lparr>world = w3,
                       trace = trace s2 @
                         [CallTeardown cu,
                          LogPrintf (''WARNING: analysis teardown error after analysis error: ''
                            @ Error tErr @ '' (analysis error: '' @ Error e @ '')'')]\<rparr>)
                 | None \<Rightarrow>
                     (Return (Some (New (''analysis teardown error: '' @ Error tErr))),
                      \<lparr>world = w3, trace = trace s2 @ [CallTeardown cu]\<rparr>))"
  using assms by (cases err) (simp_all add: callback_def invoke_def)

text \<open>
  Claim C3 at an analyzer that fails after one retry, and at one that succeeds, each
  with a failing Teardown hook.
\<close>

theorem error_precedence_witness:
  "callback driver3 cu0 s0 =
     Some (Return (Some (New ''bad unit'')),
           \<lparr>world = 2,
            trace = [CallAnalyze (request driver3 cu0), CallAnalyze (request driver3 cu0),
                     CallTeardown cu0,
                     LogPrintf ''WARNING: analysis teardown error after analysis error: disk full (analysis error: bad unit)'']\<rparr>)
   \<and> callback driver4 cu0 s0 =
     Some (Return (Some (New ''analysis teardown error: disk full'')),
           \<lparr>world = 1, trace = [CallAnalyze (request driver4 cu0), CallTeardown cu0]\<rparr>)"
  using error_precedence [of driver3 cu0 s0 s0 "Some (New ''bad unit'')"
      "\<lparr>world = 2, trace = [CallAnalyze (request driver3 cu0), CallAnalyze (request driver3 cu0)]\<rparr>"
      "failing_hook (New ''disk full'')" "New ''disk full''" 2]
    error_precedence [of driver4 cu0 s0 s0 None
      "\<lparr>world = 1, trace = [CallAnalyze (request driver4 cu0)]\<rparr>"
      "failing_hook (New ''disk full'')" "New ''disk full''" 1]
  by (simp add: run_Setup_def retry_loop.simps invoke_def driver3_def driver4_def s0_def
        retrying_analyzer_def failing_hook_def)

subsection \<open>Counting retries\<close>

lemma callback_retries:
  assumes "run_Setup d cu s = (None, s1)"
    and "Analyzer d = Some a" and "AnalysisError d = None"
    and "retries (a (request d cu) (Output d)) K (world s1) = Some wK"
    and "a (request d cu) (Output d) wK = (None, w2)"
    and "Teardown d = Some teardown" and "teardown cu w2 = (tErr, w3)"
  shows "callback d cu s =
           Some (Return (case tErr of
                           None \<Rightarrow> None
                         | Some e \<Rightarrow> Some (New (''analysis teardown error: '' @ Error e))),
                 \<lparr>world = w3,
                  trace = trace s1 @ replicate (K + 1) (CallAnalyze (request d cu)) @ [CallTeardown cu]\<rparr>)"
proof -
  let ?req = "request d cu"
  let ?sK = "\<lparr>world = wK, trace = trace s1 @ replicate K (CallAnalyze ?req)\<rparr>"
  let ?s2 = "\<lparr>world = w2, trace = trace s1 @ replicate (K + 1) (CallAnalyze ?req)\<rparr>"
  have "retry_loop d cu (Some ErrRetry) s1 = retry_loop d cu (Some ErrRetry) ?sK"
    using retry_loop_retries[OF assms(2,3,4)] .
  also have "\<dots> = retry_loop d cu None ?s2"
    using retry_loop_no_hook[OF assms(2,3), of cu ?sK None w2] assms(5)
    by (simp add: replicate_append_same)
  also have "\<dots> = Some (Return None, ?s2)"
    by (rule retry_loop_done) simp
  finally have loop: "retry_loop d cu (Some ErrRetry) s1 = Some (Return None, ?s2)" .
  show ?thesis
    using assms(1,6,7) loop
    by (cases tErr) (simp_all add: callback_def invoke_def)
qed

text \<open>
  Claim C4: take any iteration of the loop of \<^verbatim>\<open>Run\<close> (so any of the N compilations
  of a queue), in which the queue yields the compilation \<open>cu\<close>, no AnalysisError
  hook is configured, Setup is unset or returns \<^verbatim>\<open>nil\<close>, and the analyzer returns
  the retry sentinel exactly \<open>K\<close> times for \<open>cu\<close> and then succeeds. Then the calls
  of the iteration after Setup are exactly \<open>K + 1\<close> calls of the analyzer, all on
  the request built from \<open>cu\<close>, followed by one call of the configured Teardown
  hook: the iteration adds \<open>K + 1\<close> to the number of analyzer calls and one to the
  number of Teardown calls, for every \<open>K\<close>. \<^verbatim>\<open>Run\<close> then goes on to the next
  compilation, or returns the wrapped error of a failed Teardown.
\<close>

theorem retry_counting:
  assumes "queue (world s) = (Yield cu, w0)"
    and "run_Setup d cu \<lparr>world = w0, trace = trace s @ [CallNext]\<rparr> = (None, s1)"
    and "Analyzer d = Some a" and "AnalysisError d = None"
    and "retries (a (request d cu) (Output d)) K (world s1) = Some wK"
    and "a (request d cu) (Output d) wK = (None, w2)"
    and "Teardown d = Some teardown" and "teardown cu w2 = (tErr, w3)"
  shows "run_loop d queue s =
           (let s' = \<lparr>world = w3,
                      trace = trace s1 @ replicate (K + 1) (CallAnalyze (request d cu))
                                @ [CallTeardown cu]\<rparr>
            in case tErr of
                 None \<Rightarrow> run_loop d queue s'
               | Some e \<Rightarrow> Some (Return (Some (New (''analysis teardown error: '' @ Error e))), s'))
         \<and> analyzer_calls (trace s1 @ replicate (K + 1) (CallAnalyze (request d cu)) @ [CallTeardown cu])
             = analyzer_calls (trace s) + (K + 1)
         \<and> teardown_calls (trace s1 @ replicate (K + 1) (CallAnalyze (request d cu)) @ [CallTeardown cu])
             = teardown_calls (trace s) + 1"
proof -
  let ?sN = "\<lparr>world = w0, trace = trace s @ [CallNext]\<rparr>"
  let ?s' = "\<lparr>world = w3,
              trace = trace s1 @ replicate (K + 1) (CallAnalyze (request d cu)) @ [CallTeardown cu]\<rparr>"
  let ?r = "case tErr of None \<Rightarrow> None
            | Some e \<Rightarrow> Some (New (''analysis teardown error: '' @ Error e))"
  have "callback d cu ?sN = Some (Return ?r, ?s')"
    using assms(2-8) by (rule callback_retries)
  then have nxt: "Next queue (callback d) s = Some (Return ?r, ?s')"
    using assms(1) by (simp add: Next_yield)
  have loop: "run_loop d queue s =
           (case tErr of
              None \<Rightarrow> run_loop d queue ?s'
            | Some e \<Rightarrow> Some (Return (Some (New (''analysis teardown error: '' @ Error e))), ?s'))"
  proof (cases tErr)
    case None
    with nxt show ?thesis
      by (simp add: run_loop_continue)
  next
    case (Some e)
    with nxt have "Next queue (callback d) s =
        Some (Return (Some (New (''analysis teardown error: '' @ Error e))), ?s')"
      by simp
    then have "run_loop d queue s =
        Some (Return (Some (New (''analysis teardown error: '' @ Error e))), ?s')"
      by (rule run_loop_error) simp
    with Some show ?thesis
      by simp
  qed
  have "analyzer_calls (trace s1) = analyzer_calls (trace ?sN)"
    and "teardown_calls (trace s1) = teardown_calls (trace ?sN)"
    using run_Setup_calls[OF assms(2)] by simp_all
  then have cnt: "analyzer_calls (trace s1) = analyzer_calls (trace s)"
    "teardown_calls (trace s1) = teardown_calls (trace s)"
    by (simp_all add: analyzer_calls_def teardown_calls_def)
  have "run_loop d queue s =
           (let s' = ?s'
            in case tErr of
                 None \<Rightarrow> run_loop d queue s'
               | Some e \<Rightarrow> Some (Return (Some (New (''analysis teardown error: '' @ Error e))), s'))"
    using loop by (simp only: Let_def)
  moreover have "analyzer_calls (trace ?s') = analyzer_calls (trace s) + (K + 1)"
    using cnt(1) by (simp add: analyzer_calls_def)
  moreover have "teardown_calls (trace ?s') = teardown_calls (trace s) + 1"
    using cnt(2) by (simp add: teardown_calls_def)
  ultimately show ?thesis
    by simp
qed

text \<open>
  Claim C4 for \<open>K = 2\<close>, on a queue of one compilation: three analyzer calls and one
  Teardown call, then the fetch that ends the run.
\<close>

theorem retry_counting_witness:
  "run_loop driver0 (once cu0) s0 =
     Some (Return None,
           \<lparr>world = 3,
            trace = [CallNext, CallAnalyze (request driver0 cu0), CallAnalyze (request driver0 cu0),
                     CallAnalyze (request driver0 cu0), CallTeardown cu0, CallNext]\<rparr>)
   \<and> analyzer_calls [CallNext, CallAnalyze (request driver0 cu0), CallAnalyze (request driver0 cu0),
                       CallAnalyze (request driver0 cu0), CallTeardown cu0] = 3
   \<and> teardown_calls [CallNext, CallAnalyze (request driver0 cu0), CallAnalyze (request driver0 cu0),
                       CallAnalyze (request driver0 cu0), CallTeardown cu0] = 1"
proof -
  let ?s' = "\<lparr>world = 3 :: nat,
              trace = [CallNext, CallAnalyze (request driver0 cu0), CallAnalyze (request driver0 cu0),
                       CallAnalyze (request driver0 cu0), CallTeardown cu0]\<rparr>"
  have step: "run_loop driver0 (once cu0) s0 = run_loop driver0 (once cu0) ?s'
      \<and> analyzer_calls (trace ?s') = 3 \<and> teardown_calls (trace ?s') = 1"
    using retry_counting [of "once cu0" s0 cu0 0 driver0 "\<lparr>world = 0, trace = [CallNext]\<rparr>"
        "retrying_analyzer 2 None" 2 2 3 nil_hook None 3]
    by (simp add: run_Setup_def driver0_def s0_def once_def retrying_analyzer_def nil_hook_def
          analyzer_calls_def teardown_calls_def numeral_2_eq_2 numeral_3_eq_3 Let_def)
  have "Next (once cu0) (callback driver0) ?s' =
          Some (Return (Some EOF), \<lparr>world = 3, trace = trace ?s' @ [CallNext]\<rparr>)"
    by (rule Next_fail) (simp add: once_def)
  then have "run_loop driver0 (once cu0) ?s' =
          Some (Return None, \<lparr>world = 3, trace = trace ?s' @ [CallNext]\<rparr>)"
    by (rule run_loop_EOF)
  with step show ?thesis
    by simp
qed

subsection \<open>End of the queue, and validation\<close>

text \<open>
  Claim C7: when the driver is configured and the queue returns \<^verbatim>\<open>io.EOF\<close> on the
  very first call of \<^verbatim>\<open>Next\<close>, \<^verbatim>\<open>Run\<close> returns \<^verbatim>\<open>nil\<close> and the only call it has
  made is that one \<^verbatim>\<open>Next\<close>: no Setup, no Analyze (hence no Output), no Teardown.
  More generally, in any iteration of the loop, \<^verbatim>\<open>io.EOF\<close> from \<^verbatim>\<open>Next\<close> ends
  \<^verbatim>\<open>Run\<close> with \<^verbatim>\<open>nil\<close>, and any other non-nil error from \<^verbatim>\<open>Next\<close> is what
  \<^verbatim>\<open>Run\<close> returns, without a further call.
\<close>

theorem clean_early_exit:
  "(validate d = None \<and> queue (world s) = (Fail EOF, w1) \<longrightarrow>
      Run d queue s = Some (Return None, \<lparr>world = w1, trace = trace s @ [CallNext]\<rparr>))
   \<and> (Next queue (callback d) s = Some (Return (Some EOF), s1) \<longrightarrow>
        run_loop d queue s = Some (Return None, s1))
   \<and> (Next queue (callback d) s = Some (Return (Some e), s1) \<and> e \<noteq> EOF \<longrightarrow>
        run_loop d queue s = Some (Return (Some e), s1))"
proof (intro conjI impI)
  assume first: "validate d = None \<and> queue (world s) = (Fail EOF, w1)"
  then have "Next queue (callback d) s =
      Some (Return (Some EOF), \<lparr>world = w1, trace = trace s @ [CallNext]\<rparr>)"
    by (simp add: Next_fail)
  then have "run_loop d queue s = Some (Return None, \<lparr>world = w1, trace = trace s @ [CallNext]\<rparr>)"
    by (rule run_loop_EOF)
  with first show "Run d queue s = Some (Return None, \<lparr>world = w1, trace = trace s @ [CallNext]\<rparr>)"
    by (simp add: Run_def)
next
  assume "Next queue (callback d) s = Some (Return (Some EOF), s1)"
  then show "run_loop d queue s = Some (Return None, s1)"
    by (rule run_loop_EOF)
next
  assume "Next queue (callback d) s = Some (Return (Some e), s1) \<and> e \<noteq> EOF"
  then show "run_loop d queue s = Some (Return (Some e), s1)"
    by (simp add: run_loop_error)
qed

text \<open>Claim C7 at an exhausted queue, and at a queue that fails to read.\<close>

theorem clean_early_exit_witness:
  "Run driver0 (exhausted EOF) s0 = Some (Return None, \<lparr>world = 0, trace = [CallNext]\<rparr>)
   \<and> run_loop driver0 (exhausted EOF) s0 = Some (Return None, \<lparr>world = 0, trace = [CallNext]\<rparr>)
   \<and> run_loop driver0 (exhausted (New ''read error'')) s0 =
        Some (Return (Some (New ''read error'')), \<lparr>world = 0, trace = [CallNext]\<rparr>)"
  using clean_early_exit [of driver0 "exhausted EOF" s0 0 "\<lparr>world = 0, trace = [CallNext]\<rparr>" EOF]
    clean_early_exit [of driver0 "exhausted (New ''read error'')" s0 0
      "\<lparr>world = 0, trace = [CallNext]\<rparr>" "New ''read error''"]
  by (simp add: validate_def driver0_def exhausted_def s0_def Next_def invoke_def)

text \<open>
  Claim C8: when the analyzer is unset, or the analyzer is set and the output function
  is unset, \<^verbatim>\<open>Run\<close> returns a configuration error and the state is the one it was
  called in: no call of \<^verbatim>\<open>Next\<close> or of a hook has been made and the world is
  untouched. When both are set, validation passes and the first thing \<^verbatim>\<open>Run\<close> does
  is to call \<^verbatim>\<open>Next\<close> on the queue.
\<close>

theorem validate_before_io:
  "(Analyzer d = None \<longrightarrow> Run d queue s = Some (Return (Some (New ''missing Analyzer'')), s))
   \<and> (Analyzer d \<noteq> None \<and> Output d = None \<longrightarrow>
        Run d queue s = Some (Return (Some (New ''missing Output function'')), s))
   \<and> (Analyzer d \<noteq> None \<and> Output d \<noteq> None \<longrightarrow>
        validate d = None \<and>
        Run d queue s =
          (case queue (world s) of
             (Fail e, w1) \<Rightarrow>
               Some (Return (if e = EOF then None else Some e),
                     \<lparr>world = w1, trace = trace s @ [CallNext]\<rparr>)
           | (Yield cu, w1) \<Rightarrow>
               (case callback d cu \<lparr>world = w1, trace = trace s @ [CallNext]\<rparr> of
                  None \<Rightarrow> None
                | Some (Panic, s1) \<Rightarrow> Some (Panic, s1)
                | Some (Return err, s1) \<Rightarrow>
                    if err = Some EOF then Some (Return None, s1)
                    else if err \<noteq> None then Some (Return err, s1)
                    else run_loop d queue s1)))"
proof (intro conjI impI)
  assume "Analyzer d = None"
  then show "Run d queue s = Some (Return (Some (New ''missing Analyzer'')), s)"
    by (simp add: Run_def validate_def)
next
  assume "Analyzer d \<noteq> None \<and> Output d = None"
  then show "Run d queue s = Some (Return (Some (New ''missing Output function'')), s)"
    by (simp add: Run_def validate_def)
next
  assume "Analyzer d \<noteq> None \<and> Output d \<noteq> None"
  then show "validate d = None"
    by (simp add: validate_None_iff)
next
  assume "Analyzer d \<noteq> None \<and> Output d \<noteq> None"
  then have "validate d = None"
    by (simp add: validate_None_iff)
  then have "Run d queue s = run_loop d queue s"
    by (simp add: Run_def)
  then show "Run d queue s =
          (case queue (world s) of
             (Fail e, w1) \<Rightarrow>
               Some (Return (if e = EOF then None else Some e),
                     \<lparr>world = w1, trace = trace s @ [CallNext]\<rparr>)
           | (Yield cu, w1) \<Rightarrow>
               (case callback d cu \<lparr>world = w1, trace = trace s @ [CallNext]\<rparr> of
                  None \<Rightarrow> None
                | Some (Panic, s1) \<Rightarrow> Some (Panic, s1)
                | Some (Return err, s1) \<Rightarrow>
                    if err = Some EOF then Some (Return None, s1)
                    else if err \<noteq> None then Some (Return err, s1)
                    else run_loop d queue s1))"
    using run_loop_first_fetch [of d queue s] by simp
qed

text \<open>
  Claim C8 at a driver with nothing set, at one without an output function, and at a
  configured driver on an exhausted queue.
\<close>

theorem validate_before_io_witness:
  "Run driver_unset (one_item cu0) s0 = Some (Return (Some (New ''missing Analyzer'')), s0)
   \<and> Run driver_no_output (one_item cu0) s0 =
        Some (Return (Some (New ''missing Output function'')), s0)
   \<and> validate driver0 = None
   \<and> Run driver0 (exhausted EOF) s0 = Some (Return None, \<lparr>world = 0, trace = [CallNext]\<rparr>)"
  using validate_before_io [of driver_unset "one_item cu0" s0]
    validate_before_io [of driver_no_output "one_item cu0" s0]
    validate_before_io [of driver0 "exhausted EOF" s0]
  by (simp add: driver_unset_def driver_no_output_def driver0_def exhausted_def s0_def)

section \<open>Properties of the selectors\<close>

subsection \<open>The stateless selector\<close>

text \<open>
  Claim C9: for every extra action selector and every state blob, \<^verbatim>\<open>SerializeInto\<close>
  returns false and leaves the blob as it was, and \<^verbatim>\<open>DeserializeFrom\<close> returns the
  unimplemented status whatever the type and content of the blob (and leaves the
  selector as it was).
\<close>

theorem stateless_selector_serialization:
  "SerializeInto (ExtraAction e) state = (False, state)
   \<and> DeserializeFrom (ExtraAction e) state = (UnimplementedError ''stateless selector'', ExtraAction e)
   \<and> code (fst (DeserializeFrom (ExtraAction e) state)) = kUnimplemented"
  by (simp add: SerializeInto_def DeserializeFrom_def BazelArtifactSelector_SerializeInto_def
        BazelArtifactSelector_DeserializeFrom_def UnimplementedError_def)

text \<open>Claim C9 at a blob that holds a serialized aspect selector state.\<close>

theorem stateless_selector_serialization_witness:
  "SerializeInto (ExtraAction extra0)
     (snd (AspectArtifactSelector_SerializeInto (new_AspectArtifactSelector options0) blob0)) =
     (False, snd (AspectArtifactSelector_SerializeInto (new_AspectArtifactSelector options0) blob0))
   \<and> code (fst (DeserializeFrom (ExtraAction extra0)
        (snd (AspectArtifactSelector_SerializeInto (new_AspectArtifactSelector options0) blob0))))
      = kUnimplemented"
  using stateless_selector_serialization [of extra0
      "snd (AspectArtifactSelector_SerializeInto (new_AspectArtifactSelector options0) blob0)"]
  by (elim conjE) (intro conjI)

subsection \<open>Serialization round trip\<close>

lemma roundtrip_state:
  "AspectArtifactSelector_DeserializeFrom (new_AspectArtifactSelector (sel_options sel))
     (snd (AspectArtifactSelector_SerializeInto sel blob)) = (OkStatus, sel)"
  by (cases sel, cases "sel_state sel")
     (simp add: AspectArtifactSelector_DeserializeFrom_def AspectArtifactSelector_SerializeInto_def
        new_AspectArtifactSelector_def)

text \<open>
  Claim C5: for every aspect selector \<open>sel\<close> (whatever its state, so for every
  reachable one) and every sequence of build events: \<^verbatim>\<open>SerializeInto\<close> succeeds,
  \<^verbatim>\<open>DeserializeFrom\<close> of the blob it wrote into a freshly constructed selector with
  the same options returns OK, and the restored selector gives the same sequence of
  \<^verbatim>\<open>Select\<close> outputs on the events as \<open>sel\<close> itself (and is in the same state
  afterwards).
\<close>

theorem serialization_round_trip:
  "fst (AspectArtifactSelector_SerializeInto sel blob) = True
   \<and> fst (AspectArtifactSelector_DeserializeFrom (new_AspectArtifactSelector (sel_options sel))
            (snd (AspectArtifactSelector_SerializeInto sel blob))) = OkStatus
   \<and> Select_events
         (snd (AspectArtifactSelector_DeserializeFrom (new_AspectArtifactSelector (sel_options sel))
                (snd (AspectArtifactSelector_SerializeInto sel blob)))) events
       = Select_events sel events"
proof -
  let ?fresh = "new_AspectArtifactSelector (sel_options sel)"
  let ?blob = "snd (AspectArtifactSelector_SerializeInto sel blob)"
  have written: "fst (AspectArtifactSelector_SerializeInto sel blob) = True"
    by (simp add: AspectArtifactSelector_SerializeInto_def)
  have restored: "AspectArtifactSelector_DeserializeFrom ?fresh ?blob = (OkStatus, sel)"
    by (rule roundtrip_state)
  from restored have "snd (AspectArtifactSelector_DeserializeFrom ?fresh ?blob) = sel"
    by simp
  then have "Select_events (snd (AspectArtifactSelector_DeserializeFrom ?fresh ?blob)) events
      = Select_events sel events"
    by (rule arg_cong)
  with written restored show ?thesis
    by simp
qed

subsection \<open>Order independence\<close>

lemma resolve_all_disposed:
  "\<forall>i \<in> set ids. i |\<in>| disposed st \<Longrightarrow> resolve_all label ids st = ([], st)"
  by (induction ids) (simp_all add: resolve_def)

lemma resolve_all_pending:
  assumes "i |\<notin>| disposed st" "fmlookup (filesets st) i = None"
  shows "\<forall>j \<in> set ids. j = i \<Longrightarrow>
         resolve_all label ids st =
           ([], if ids = [] then st else st\<lparr>pending := fmupd i label (pending st)\<rparr>)"
  using assms
proof (induction ids arbitrary: st)
  case Nil
  then show ?case by simp
next
  case (Cons j ids)
  let ?st1 = "st\<lparr>pending := fmupd i label (pending st)\<rparr>"
  have j: "j = i" using Cons.prems(1) by simp
  have step: "resolve label i st = (None, ?st1)"
    using Cons.prems(2,3) by (simp add: resolve_def)
  have rest: "resolve_all label ids ?st1 = ([], ?st1)"
    using Cons.IH[of ?st1] Cons.prems by (cases "ids = []") simp_all
  show ?case
    using j step rest by simp
qed

lemma resolve_all_stored:
  assumes "i |\<notin>| disposed st" "fmlookup (filesets st) i = Some fileset" "file_sets fileset = []"
    and "\<forall>j \<in> set ids. j = i" "ids \<noteq> []"
  shows "resolve_all label ids st =
           ([\<lparr>artifact_id = label, artifact_files = files fileset\<rparr>],
            st\<lparr>filesets := fmdrop i (filesets st), disposed := finsert i (disposed st)\<rparr>)"
proof -
  let ?st1 = "st\<lparr>filesets := fmdrop i (filesets st), disposed := finsert i (disposed st)\<rparr>"
  obtain j rest where ids: "ids = j # rest"
    using assms(5) by (cases ids) simp_all
  have j: "j = i" using assms(4) ids by simp
  have step: "resolve label i st = (Some \<lparr>artifact_id = label, artifact_files = files fileset\<rparr>, ?st1)"
    using assms(1,2,3) by (simp add: resolve_def)
  have rest: "resolve_all label rest ?st1 = ([], ?st1)"
    using assms(4) ids by (intro resolve_all_disposed) simp
  show ?thesis
    using ids j step rest by simp
qed

text \<open>
  Claim C6: take a file set \<open>i\<close> and a successful target whose aspect is allowed and
  whose qualifying output groups refer to \<open>i\<close> and to no other file set; the file
  set has files that match the file name allowlist and refers to no child file set.
  Fed to a fresh selector, the events [file set, target] and the events
  [target, file set] each produce exactly one artifact, on the second event; the two
  artifacts are equal (the target's label with the allowed files), and in both cases
  the selector ends with \<open>i\<close> disposed and with \<open>pending\<close> (and \<open>filesets\<close>) empty.
\<close>

theorem order_independence:
  assumes "target_aspect_allowlist options aspect"
    and "set (concat (map snd (qualifying options output_groups))) = {i}"
    and "file_sets fileset = []"
    and "\<exists>f \<in> set (files fileset). file_name_allowlist options (name f)"
  shows "Select_events (new_AspectArtifactSelector options)
           [NamedSetOfFilesEvent i fileset, TargetCompleted label aspect True output_groups] =
           ([None, Some \<lparr>artifact_id = label,
                         artifact_files = filter (\<lambda>f. file_name_allowlist options (name f)) (files fileset)\<rparr>],
            \<lparr>sel_options = options,
             sel_state = \<lparr>disposed = {|i|}, filesets = fmempty, pending = fmempty\<rparr>\<rparr>)
       \<and> Select_events (new_AspectArtifactSelector options)
           [TargetCompleted label aspect True output_groups, NamedSetOfFilesEvent i fileset] =
           ([None, Some \<lparr>artifact_id = label,
                         artifact_files = filter (\<lambda>f. file_name_allowlist options (name f)) (files fileset)\<rparr>],
            \<lparr>sel_options = options,
             sel_state = \<lparr>disposed = {|i|}, filesets = fmempty, pending = fmempty\<rparr>\<rparr>)"
proof -
  let ?ids = "concat (map snd (qualifying options output_groups))"
  let ?kept = "filter (\<lambda>f. file_name_allowlist options (name f)) (files fileset)"
  let ?empty = "\<lparr>disposed = {||}, filesets = fmempty, pending = fmempty\<rparr>"
  have all: "\<forall>j \<in> set ?ids. j = i"
    using assms(2) by blast
  have ne: "?ids \<noteq> []"
  proof
    assume "?ids = []"
    then have "set ?ids = {}"
      by (simp only: list.set)
    with assms(2) show False
      by simp
  qed
  then have q: "qualifying options output_groups \<noteq> []"
    by auto
  let ?stored = "\<lparr>disposed = {||}, filesets = fmupd i (fileset\<lparr>files := ?kept\<rparr>) fmempty,
                   pending = fmempty\<rparr>"
  have a1: "SelectFileSet options i fileset ?empty = (None, ?stored)"
    by (simp add: SelectFileSet_def)
  have "resolve_all label ?ids ?stored =
          ([\<lparr>artifact_id = label, artifact_files = files (fileset\<lparr>files := ?kept\<rparr>)\<rparr>],
           ?stored\<lparr>filesets := fmdrop i (filesets ?stored), disposed := finsert i (disposed ?stored)\<rparr>)"
    using all ne assms(3) by (intro resolve_all_stored) simp_all
  then have a2: "SelectTargetCompleted options label aspect True output_groups ?stored =
          (Some \<lparr>artifact_id = label, artifact_files = ?kept\<rparr>,
           \<lparr>disposed = {|i|}, filesets = fmempty, pending = fmempty\<rparr>)"
    using assms(1) q by (simp add: SelectTargetCompleted_def fmdrop_fmupd_same)
  let ?claimed = "\<lparr>disposed = {||}, filesets = fmempty, pending = fmupd i label fmempty\<rparr>"
  have "resolve_all label ?ids ?empty = ([], ?empty\<lparr>pending := fmupd i label (pending ?empty)\<rparr>)"
    using resolve_all_pending[of i ?empty ?ids label] all ne by simp
  then have b1: "SelectTargetCompleted options label aspect True output_groups ?empty = (None, ?claimed)"
    using assms(1) q by (simp add: SelectTargetCompleted_def)
  have b2: "SelectFileSet options i fileset ?claimed =
          (Some \<lparr>artifact_id = label, artifact_files = ?kept\<rparr>,
           \<lparr>disposed = {|i|}, filesets = fmempty, pending = fmempty\<rparr>)"
    using assms(3) by (simp add: SelectFileSet_def fmdrop_fmupd_same)
  show ?thesis
    using a1 a2 b1 b2 by (simp add: Select_def new_AspectArtifactSelector_def)
qed

text \<open>Claim C6 at the events of the spec's scenarios A and B.\<close>

theorem order_independence_witness:
  "Select_events (new_AspectArtifactSelector options0) [fileset_event, target_event] =
     ([None, Some \<lparr>artifact_id = ''//x:y'', artifact_files = [foo_kzip]\<rparr>],
      \<lparr>sel_options = options0,
       sel_state = \<lparr>disposed = {|''fs1''|}, filesets = fmempty, pending = fmempty\<rparr>\<rparr>)
   \<and> Select_events (new_AspectArtifactSelector options0) [target_event, fileset_event] =
     ([None, Some \<lparr>artifact_id = ''//x:y'', artifact_files = [foo_kzip]\<rparr>],
      \<lparr>sel_options = options0,
       sel_state = \<lparr>disposed = {|''fs1''|}, filesets = fmempty, pending = fmempty\<rparr>\<rparr>)"
  using order_independence [of options0 "''kythe''" "[(''g'', [''fs1''])]" "''fs1''" fs1 "''//x:y''"]
  by (simp add: options0_def any_aspect_def group_g_def kzip_name_def qualifying_def fs1_def
        foo_kzip_def fileset_event_def target_event_def)

text \<open>
  Claim C5 at the selector that has seen the file set of scenario A: restored from its
  serialized state, it selects the artifact on the target event as the original does.
\<close>

theorem serialization_round_trip_witness:
  "Select_events
     (snd (AspectArtifactSelector_DeserializeFrom (new_AspectArtifactSelector options0)
            (snd (AspectArtifactSelector_SerializeInto
                    (snd (Select (new_AspectArtifactSelector options0) fileset_event)) blob0))))
     [target_event]
     = Select_events (snd (Select (new_AspectArtifactSelector options0) fileset_event))
         [target_event]"
  using serialization_round_trip
    [of "snd (Select (new_AspectArtifactSelector options0) fileset_event)" blob0 "[target_event]"]
  by (simp add: Select_def fileset_event_def SelectFileSet_def new_AspectArtifactSelector_def)

end
